theory Spec2Isabelle
  imports Complex_Main "HOL-Library.Log_Nat"
begin

section \<open>Numeric conventions\<close>

text \<open>
  The C++ type \<open>long long\<close> and \<open>int\<close> are modelled as \<^typ>\<open>int\<close>: signed overflow is
  undefined behaviour in C++, so there is no wrapped result to describe, and every statement
  below is about executions whose intermediate values fit the machine type.

  \<open>tdiv\<close> is the integer division of C++ (the quotient is truncated towards zero), and
  \<open>c_round\<close> is \<open>round\<close> of \<open>cmath\<close> (halfway cases away from zero); applied to a
  \<open>double\<close> it is exact.
\<close>

definition tdiv :: "int \<Rightarrow> int \<Rightarrow> int" where
  "tdiv a b = sgn a * sgn b * (\<bar>a\<bar> div \<bar>b\<bar>)"

definition c_round :: "real \<Rightarrow> int" where
  "c_round v = (if 0 \<le> v then \<lfloor>v + 1 / 2\<rfloor> else - \<lfloor>- v + 1 / 2\<rfloor>)"

text \<open>
  A \<open>double\<close> is a real number with a significand of 53 bits, and every operation of the
  datetime functions that yields a \<open>double\<close> (the conversion of a \<open>long long\<close>, a
  product, a quotient) returns the exact result rounded to the nearest such number, halfway
  cases to the even significand: \<open>to_double\<close>. For \<open>v\<close> other than 0, \<open>exponent v\<close>
  is the integer \<open>e\<close> with \<open>2^e \<le> |v| < 2^(e+1)\<close>, and the doubles around \<open>v\<close> are the
  multiples of \<open>2^(e-52)\<close>. The exponent range of the format (overflow to infinity,
  subnormal numbers) is not modelled: the quantities below, built from \<open>long long\<close> values
  and the four scale factors, stay far inside it. An \<open>int\<close> converts to \<open>double\<close>
  exactly and needs no rounding.

  The interpolation classes further down compute on \<open>double\<close> too; they are modelled
  with exact real arithmetic, and the concrete evaluations there only use values on which
  the two agree.
\<close>

definition exponent :: "real \<Rightarrow> int" where
  "exponent v =
     (if 1 \<le> \<bar>v\<bar> then bitlen \<lfloor>\<bar>v\<bar>\<rfloor> - 1 else - bitlen (\<lceil>1 / \<bar>v\<bar>\<rceil> - 1))"

definition round_half_even :: "real \<Rightarrow> int" where
  "round_half_even q =
     (let f = \<lfloor>q\<rfloor>
      in if q - of_int f < 1 / 2 then f
         else if 1 / 2 < q - of_int f then f + 1
         else if even f then f else f + 1)"

definition to_double :: "real \<Rightarrow> real" where
  "to_double v =
     (if v = 0 then 0
      else (let ulp = power_int 2 (exponent v - 52)
            in of_int (round_half_even (v / ulp)) * ulp))"

text \<open>The conversion of a \<open>long long\<close> to \<open>double\<close>.\<close>

definition double_of_int :: "int \<Rightarrow> real" where
  "double_of_int n = to_double (of_int n)"

section \<open>datetime: enumerations and errors\<close>

datatype EpochTimestampType = SECONDS | MILLISECONDS | MICROSECONDS | NANOSECONDS

text \<open>The enumerators' values, as read by \<open>static_cast<int>\<close>.\<close>

fun type_value :: "EpochTimestampType \<Rightarrow> int" where
  "type_value SECONDS = 1"
| "type_value MILLISECONDS = 1000"
| "type_value MICROSECONDS = 1000000"
| "type_value NANOSECONDS = 1000000000"

text \<open>
  The enumerators \<open>_1W\<close> to \<open>_30Y\<close> of \<open>Tenor\<close> are written \<open>T_1W\<close> to
  \<open>T_30Y\<close>: a name cannot start with an underscore here.
\<close>

datatype Tenor = ON | TN | SN | T_1W | T_2W | T_1M | T_3M | T_6M
  | T_1Y | T_5Y | T_10Y | T_20Y | T_30Y

datatype DayCountConvention = ACT360 | ACT365 | ACT364

text \<open>
  The exception classes of the repository. \<open>UndefinedBehaviour\<close> stands for an execution
  that leaves the defined behaviour of C++ (an out-of-range vector read, a floating value
  converted to an integer type that cannot hold it, the end of a non-void function reached),
  and \<open>StdOutOfRange\<close> for \<open>std::out_of_range\<close> thrown by \<open>std::map::at\<close>.
  The \<open>default\<close> branches of the switches over \<open>Tenor\<close> and \<open>DayCountConvention\<close>
  throw for values outside the enumeration; the datatypes have no such values.
\<close>

datatype error =
    NegativeEpochTimestampError
  | UndefinedDayCountConventionError
  | UndefinedTenorError
  | NonPositiveYearFractionError
  | Interpolation2DMinimalVectorSize
  | Interpolation2DOutOfRange
  | Interpolation2DWrongXaxis
  | StdOutOfRange
  | UndefinedBehaviour

section \<open>TimeDelta\<close>

text \<open>
  The private members \<open>d, h, m, s, ms, mcs, ns\<close> of the class, prefixed with \<open>td_\<close>
  so that the one-letter names stay free for variables.
\<close>

record TimeDelta =
  td_d :: int
  td_h :: int
  td_m :: int
  td_s :: int
  td_ms :: int
  td_mcs :: int
  td_ns :: int

definition TimeDelta_ctor :: "int \<Rightarrow> int \<Rightarrow> int \<Rightarrow> int \<Rightarrow> int \<Rightarrow> int \<Rightarrow> int \<Rightarrow> TimeDelta" where
  "TimeDelta_ctor days hours minutes seconds milliseconds microseconds nanoseconds =
     \<lparr>td_d = days, td_h = hours, td_m = minutes, td_s = seconds,
      td_ms = milliseconds, td_mcs = microseconds, td_ns = nanoseconds\<rparr>"

text \<open>
  In \<open>get_total_seconds\<close> the argument of \<open>round\<close> is the quotient of a \<open>long long\<close>
  by an \<open>int\<close>: an integer division, whose \<open>long long\<close> result is then converted to
  \<open>double\<close>.
\<close>

definition get_total_seconds :: "TimeDelta \<Rightarrow> int" where
  "get_total_seconds t =
     (let mcs_value = type_value MICROSECONDS;
          ns_value = type_value NANOSECONDS;
          ms_value = type_value MILLISECONDS;
          day_s = td_d t * 24 * 60 * 60;
          hour_s = td_h t * 60 * 60;
          min_s = td_m t * 60;
          micros_s = c_round (double_of_int (tdiv (td_mcs t) mcs_value));
          millis_s = c_round (double_of_int (tdiv (td_ms t) ms_value));
          nanos_s = c_round (double_of_int (tdiv (td_ns t) ns_value));
          total = td_s t + day_s + hour_s + min_s + micros_s + millis_s + nanos_s
      in total)"

definition get_total_milliseconds :: "TimeDelta \<Rightarrow> int" where
  "get_total_milliseconds t =
     (let mcs_value = type_value MICROSECONDS;
          ns_value = type_value NANOSECONDS;
          ms_value = type_value MILLISECONDS;
          day_s = td_d t * 24 * 60 * 60;
          hour_s = td_h t * 60 * 60;
          min_s = td_m t * 60;
          total_seconds = td_s t + day_s + hour_s + min_s;
          micros_ms = c_round (double_of_int (tdiv (td_mcs t * ms_value) mcs_value));
          nanos_ms = c_round (double_of_int (tdiv (td_ns t * ms_value) ns_value));
          total = total_seconds * 1000 + td_ms t + micros_ms + nanos_ms
      in total)"

definition get_total_microseconds :: "TimeDelta \<Rightarrow> int" where
  "get_total_microseconds t =
     (let mcs_value = type_value MICROSECONDS;
          ns_value = type_value NANOSECONDS;
          day_s = td_d t * 24 * 60 * 60;
          hour_s = td_h t * 60 * 60;
          min_s = td_m t * 60;
          total_seconds = td_s t + day_s + hour_s + min_s;
          total_milliseconds = total_seconds * 1000 + td_ms t;
          nanos_ms = c_round (double_of_int (tdiv (td_ns t * mcs_value) ns_value));
          total = total_milliseconds * 1000 + td_mcs t + nanos_ms
      in total)"

definition get_total_nanoseconds :: "TimeDelta \<Rightarrow> int" where
  "get_total_nanoseconds t =
     (let day_s = td_d t * 24 * 60 * 60;
          hour_s = td_h t * 60 * 60;
          min_s = td_m t * 60;
          total_seconds = td_s t + day_s + hour_s + min_s;
          total_milliseconds = total_seconds * 1000 + td_ms t;
          total_microseconds = total_milliseconds * 1000 + td_mcs t;
          total = total_microseconds * 1000 + td_ns t
      in total)"

text \<open>
  The aggregation as the specification words it: every finer unit is divided as a real
  number and rounded to the nearest integer before the sum.
\<close>

definition total_seconds_spec :: "TimeDelta \<Rightarrow> int" where
  "total_seconds_spec t =
     td_d t * 86400 + td_h t * 3600 + td_m t * 60 + td_s t
     + c_round (of_int (td_ms t) / 10 ^ 3)
     + c_round (of_int (td_mcs t) / 10 ^ 6)
     + c_round (of_int (td_ns t) / 10 ^ 9)"

section \<open>DateTime\<close>

text \<open>
  The members \<open>tmsp\<close> and \<open>type_\<close> of the class; the second is written
  \<open>tmsp_type\<close>, a name cannot end with an underscore here.
\<close>

record DateTime =
  tmsp :: int
  tmsp_type :: EpochTimestampType

definition DateTime_ctor :: "int \<Rightarrow> EpochTimestampType \<Rightarrow> error + DateTime" where
  "DateTime_ctor timestamp type =
     (if timestamp < 0 then Inl NegativeEpochTimestampError
      else Inr \<lparr>tmsp = timestamp, tmsp_type = type\<rparr>)"

definition get_timestamp :: "DateTime \<Rightarrow> int" where
  "get_timestamp dt = tmsp dt"

definition get_timestamp_type :: "DateTime \<Rightarrow> EpochTimestampType" where
  "get_timestamp_type dt = tmsp_type dt"

definition set_timestamp :: "int \<Rightarrow> DateTime \<Rightarrow> DateTime" where
  "set_timestamp timestamp dt = dt\<lparr>tmsp := timestamp\<rparr>"

definition set_timestamp_type :: "EpochTimestampType \<Rightarrow> DateTime \<Rightarrow> DateTime" where
  "set_timestamp_type type dt = dt\<lparr>tmsp_type := type\<rparr>"

definition apply_time_delta :: "TimeDelta \<Rightarrow> DateTime \<Rightarrow> DateTime" where
  "apply_time_delta dt this =
     (case tmsp_type this of
        SECONDS \<Rightarrow> this\<lparr>tmsp := tmsp this + get_total_seconds dt\<rparr>
      | MILLISECONDS \<Rightarrow> this\<lparr>tmsp := tmsp this + get_total_milliseconds dt\<rparr>
      | MICROSECONDS \<Rightarrow> this\<lparr>tmsp := tmsp this + get_total_microseconds dt\<rparr>
      | NANOSECONDS \<Rightarrow> this\<lparr>tmsp := tmsp this + get_total_nanoseconds dt\<rparr>)"

definition convert_timestamp :: "EpochTimestampType \<Rightarrow> DateTime \<Rightarrow> DateTime" where
  "convert_timestamp type this =
     (let type1 = type_value type;
          type2 = type_value (tmsp_type this);
          factor = to_double (double_of_int type1 / double_of_int type2);
          new_tmsp = c_round (to_double (factor * double_of_int (tmsp this)))
      in set_timestamp_type type (set_timestamp new_tmsp this))"

section \<open>Free functions on DateTime pointers\<close>

text \<open>
  The free functions take \<open>std::shared_ptr\<close> to \<open>DateTime\<close> arguments and mutate the objects
  they point to, and two arguments may point to the same object. The objects therefore live in
  a store indexed by addresses, and a member function called through a pointer updates the store
  at that address.
\<close>

type_synonym heap = "nat \<Rightarrow> DateTime"

definition convert_timestamp_at :: "nat \<Rightarrow> EpochTimestampType \<Rightarrow> heap \<Rightarrow> heap" where
  "convert_timestamp_at ptr type hp = hp(ptr := convert_timestamp type (hp ptr))"

definition get_timedelta :: "nat \<Rightarrow> nat \<Rightarrow> EpochTimestampType \<Rightarrow> heap \<Rightarrow> TimeDelta \<times> heap" where
  "get_timedelta start_datetime end_datetime delta_type hp =
     (let start_type = get_timestamp_type (hp start_datetime);
          end_type = get_timestamp_type (hp end_datetime);
          hp1 = convert_timestamp_at start_datetime delta_type hp;
          hp2 = convert_timestamp_at end_datetime delta_type hp1;
          delta = get_timestamp (hp2 end_datetime) - get_timestamp (hp2 start_datetime);
          hp3 = convert_timestamp_at start_datetime start_type hp2;
          hp4 = convert_timestamp_at end_datetime end_type hp3
      in (case delta_type of
            SECONDS \<Rightarrow> TimeDelta_ctor 0 0 0 delta 0 0 0
          | MILLISECONDS \<Rightarrow> TimeDelta_ctor 0 0 0 0 delta 0 0
          | MICROSECONDS \<Rightarrow> TimeDelta_ctor 0 0 0 0 0 delta 0
          | NANOSECONDS \<Rightarrow> TimeDelta_ctor 0 0 0 0 0 0 delta,
          hp4))"

text \<open>
  The store that holds the listed objects at the addresses 0, 1, and so on; the concrete
  examples below are stated on such stores.
\<close>

definition heap_of :: "DateTime list \<Rightarrow> heap" where
  "heap_of objects ptr =
     (if ptr < length objects then objects ! ptr else \<lparr>tmsp = 0, tmsp_type = SECONDS\<rparr>)"

fun get_number_days_in_year :: "DayCountConvention \<Rightarrow> int" where
  "get_number_days_in_year ACT360 = 360"
| "get_number_days_in_year ACT365 = 365"
| "get_number_days_in_year ACT364 = 364"

definition get_number_days_in_month :: "DayCountConvention \<Rightarrow> int" where
  "get_number_days_in_month dcc =
     (let actual_days = c_round (of_int (tdiv (get_number_days_in_year dcc) 12))
      in case dcc of ACT360 \<Rightarrow> actual_days | ACT365 \<Rightarrow> actual_days | ACT364 \<Rightarrow> actual_days)"


definition get_tenor_in_days :: "Tenor \<Rightarrow> DayCountConvention \<Rightarrow> int" where
  "get_tenor_in_days tenor dcc =
     (let days_in_year = get_number_days_in_year dcc;
          days_in_month = get_number_days_in_month dcc
      in case tenor of
           ON \<Rightarrow> 1
         | TN \<Rightarrow> 2
         | SN \<Rightarrow> 3
         | T_1W \<Rightarrow> 7
         | T_2W \<Rightarrow> 14
         | T_1M \<Rightarrow> days_in_month
         | T_3M \<Rightarrow> 3 * days_in_month
         | T_6M \<Rightarrow> 6 * days_in_month
         | T_1Y \<Rightarrow> days_in_year
         | T_5Y \<Rightarrow> 5 * days_in_year
         | T_10Y \<Rightarrow> 10 * days_in_year
         | T_20Y \<Rightarrow> 20 * days_in_year
         | T_30Y \<Rightarrow> 30 * days_in_year)"

definition get_tenor_in_timedelta :: "Tenor \<Rightarrow> DayCountConvention \<Rightarrow> TimeDelta" where
  "get_tenor_in_timedelta tenor dcc = TimeDelta_ctor (get_tenor_in_days tenor dcc) 0 0 0 0 0 0"

text \<open>
  The quotient in \<open>get_tenor_year_fraction\<close> is taken between two \<open>int\<close> values and
  converted to \<open>double\<close> on return.
\<close>

definition get_tenor_year_fraction :: "Tenor \<Rightarrow> DayCountConvention \<Rightarrow> real" where
  "get_tenor_year_fraction tenor dcc =
     of_int (tdiv (get_tenor_in_days tenor dcc) (get_number_days_in_year dcc))"

definition sequence_length_from_frequency_tenor ::
    "nat \<Rightarrow> nat \<Rightarrow> Tenor \<Rightarrow> DayCountConvention \<Rightarrow> heap \<Rightarrow> int \<times> heap" where
  "sequence_length_from_frequency_tenor start_datetime end_datetime frequency_tenor
       day_count_convention hp =
     (let freq_dt = get_tenor_in_timedelta frequency_tenor day_count_convention;
          (dt, hp') = get_timedelta start_datetime end_datetime SECONDS hp
      in (c_round (to_double
                     (double_of_int (get_total_seconds dt)
                        / double_of_int (get_total_seconds freq_dt))),
          hp'))"

definition get_end_datetime_from_tenor :: "DateTime \<Rightarrow> Tenor \<Rightarrow> DayCountConvention \<Rightarrow> DateTime" where
  "get_end_datetime_from_tenor start_datetime end_tenor day_count_convention =
     apply_time_delta (get_tenor_in_timedelta end_tenor day_count_convention) start_datetime"

text \<open>
  An element of the vector returned by \<open>generate_datetime_sequence\<close> is a shared pointer:
  either one of the two pointers the caller passed (\<open>Shared\<close>, an address of the store) or a
  pointer to an object made by \<open>std::make_shared\<close> inside the function (\<open>Fresh\<close>, with the
  value of that object, which nothing else refers to).
\<close>

datatype datetime_ptr = Shared nat | Fresh DateTime

text \<open>The \<open>while (i<n)\<close> loop of \<open>generate_datetime_sequence\<close>.\<close>

function sequence_loop ::
    "int \<Rightarrow> int \<Rightarrow> TimeDelta \<Rightarrow> DateTime \<Rightarrow> datetime_ptr list \<Rightarrow> datetime_ptr list" where
  "sequence_loop i n dt next_datetime output =
     (if i < n then
        (let next_datetime' = apply_time_delta dt next_datetime
         in sequence_loop (i + 1) n dt next_datetime' (output @ [Fresh next_datetime']))
      else output)"
  by pat_completeness auto
termination
  by (relation "measure (\<lambda>(i, n, dt, next_datetime, output). nat (n - i))") auto

declare sequence_loop.simps [simp del]

definition generate_datetime_sequence ::
    "nat \<Rightarrow> Tenor \<Rightarrow> DayCountConvention \<Rightarrow> bool \<Rightarrow> bool \<Rightarrow> nat \<Rightarrow> heap
       \<Rightarrow> datetime_ptr list \<times> heap" where
  "generate_datetime_sequence start_datetime frequency_tenor day_count_convention
       include_start include_end end_datetime hp =
     (let dt = get_tenor_in_timedelta frequency_tenor day_count_convention;
          next_datetime = hp start_datetime;
          (n, hp') = sequence_length_from_frequency_tenor start_datetime end_datetime
                       frequency_tenor day_count_convention hp;
          output = sequence_loop 1 n dt next_datetime [];
          output = (if include_start then Shared start_datetime # output else output);
          output = (if include_end then output @ [Shared end_datetime] else output)
      in (output, hp'))"

section \<open>Interpolation2D\<close>

text \<open>
  A \<open>std::map\<close> from \<open>double\<close> to \<open>double\<close> is the list of its entries in iteration
  order, which the container keeps strictly increasing by key. \<open>std_map_of\<close> builds it from
  the entries in the order a caller writes them, as the constructor from an initializer list
  does: an entry whose key is already present is dropped.
\<close>

type_synonym std_map = "(real \<times> real) list"

fun map_insert :: "real \<times> real \<Rightarrow> std_map \<Rightarrow> std_map" where
  "map_insert (k, v) [] = [(k, v)]"
| "map_insert (k, v) ((k', v') # mp) =
     (if k < k' then (k, v) # (k', v') # mp
      else if k = k' then (k', v') # mp
      else (k', v') # map_insert (k, v) mp)"

definition std_map_of :: "(real \<times> real) list \<Rightarrow> std_map" where
  "std_map_of entries = foldl (\<lambda>mp e. map_insert e mp) [] entries"

fun map_at :: "std_map \<Rightarrow> real \<Rightarrow> error + real" where
  "map_at [] k = Inl StdOutOfRange"
| "map_at ((k', v') # mp) k = (if k = k' then Inr v' else map_at mp k)"

text \<open>\<open>operator[]\<close> of \<open>std::vector\<close>: a read outside the vector is undefined.\<close>

definition vec_at :: "real list \<Rightarrow> nat \<Rightarrow> error + real" where
  "vec_at v i = (if i < length v then Inr (v ! i) else Inl UndefinedBehaviour)"

text \<open>
  \<open>std::min_element\<close> and \<open>std::max_element\<close>, dereferenced: the first smallest and the
  first largest element; on an empty range the end iterator is dereferenced.
\<close>

fun min_element :: "real list \<Rightarrow> error + real" where
  "min_element [] = Inl UndefinedBehaviour"
| "min_element (v # vs) = Inr (foldl (\<lambda>best w. if w < best then w else best) v vs)"

fun max_element :: "real list \<Rightarrow> error + real" where
  "max_element [] = Inl UndefinedBehaviour"
| "max_element (v # vs) = Inr (foldl (\<lambda>best w. if best < w then w else best) v vs)"

text \<open>
  The conversion of a \<open>double\<close> to \<open>size_t\<close> (64 bits): the fraction is discarded, and the
  behaviour is undefined when the result is not a value of the type.
\<close>

definition double_to_size_t :: "real \<Rightarrow> error + nat" where
  "double_to_size_t v =
     (let t = (if 0 \<le> v then \<lfloor>v\<rfloor> else \<lceil>v\<rceil>)
      in if 0 \<le> t \<and> t < 2 ^ 64 then Inr (nat t) else Inl UndefinedBehaviour)"

text \<open>
  The members of \<open>Interpolation2D\<close>. The vectors \<open>x\<close> and \<open>y\<close> are the fields
  \<open>axis_x\<close> and \<open>axis_y\<close>.
\<close>

record Interpolation2D =
  mapped_x_y :: std_map
  axis_x :: "real list"
  axis_y :: "real list"
  x_min :: real
  x_max :: real

text \<open>
  In \<open>get_x_values\<close> the \<open>for\<close> statement has no braces: its body is the
  \<open>push_back\<close> alone, and the comparison of neighbouring keys and \<open>i++\<close> run once,
  after the loop, with \<open>i = 0\<close>.
\<close>

definition get_x_values :: "std_map \<Rightarrow> error + real list" where
  "get_x_values mp =
     (let keys = map fst mp;
          i = (0::nat)
      in if i > 0 \<and> keys ! (i - 1) > keys ! i then Inl Interpolation2DWrongXaxis
         else if length keys < 2 then Inl Interpolation2DMinimalVectorSize
         else Inr keys)"

definition get_y_values :: "std_map \<Rightarrow> real list" where
  "get_y_values mp = map snd mp"

text \<open>
  The constructor's initializer list is
  \<open>mapped_x_y(mapped_x_y_), x(get_x_values()), x_max(*std::max_element(..)),
  y(*std::min_element(..))\<close>. Members are initialized in the order of their declaration:
  \<open>mapped_x_y\<close>, \<open>x\<close>, \<open>y\<close>, \<open>x_max\<close>. The initializer of \<open>y\<close> passes one
  \<open>double\<close>, the smallest key, to the constructor of \<open>std::vector\<close> that takes a size, so
  \<open>y\<close> is that many zeros. No initializer names \<open>x_min\<close>: the member keeps whatever the
  storage of the object held, and that value is the first argument \<open>indeterminate\<close> of the
  model. Running out of memory for \<open>y\<close> is not modelled.
\<close>

definition Interpolation2D_ctor :: "real \<Rightarrow> std_map \<Rightarrow> error + Interpolation2D" where
  "Interpolation2D_ctor indeterminate mapped_x_y0 =
     (case get_x_values mapped_x_y0 of
        Inl e \<Rightarrow> Inl e
      | Inr keys \<Rightarrow>
          (case min_element keys of
             Inl e \<Rightarrow> Inl e
           | Inr lo \<Rightarrow>
               (case double_to_size_t lo of
                  Inl e \<Rightarrow> Inl e
                | Inr sz \<Rightarrow>
                    (case max_element keys of
                       Inl e \<Rightarrow> Inl e
                     | Inr hi \<Rightarrow>
                         Inr \<lparr>mapped_x_y = mapped_x_y0, axis_x = keys,
                              axis_y = replicate sz 0, x_min = indeterminate,
                              x_max = hi\<rparr>))))"

section \<open>LinearInterpolation2D\<close>

definition linear_interpolate :: "real \<Rightarrow> real \<Rightarrow> real \<Rightarrow> real \<Rightarrow> real \<Rightarrow> real" where
  "linear_interpolate x0 y0 x1 y1 x = y0 + (x - x0) * (y1 - y0) / (x1 - x0)"

text \<open>
  The \<open>for\<close> loop of \<open>evaluate\<close>, from index \<open>i\<close>. When no segment holds the point the
  loop ends and control reaches the end of the function, which returns nothing.
\<close>

function linear_loop :: "Interpolation2D \<Rightarrow> real \<Rightarrow> nat \<Rightarrow> error + real" where
  "linear_loop this x' i =
     (if i < length (axis_x this) then
        (if x' \<ge> axis_x this ! (i - 1) \<and> x' \<le> axis_x this ! i then
           (let x0 = axis_x this ! (i - 1);
                x1 = axis_x this ! i
            in case map_at (mapped_x_y this) x0 of
                 Inl e \<Rightarrow> Inl e
               | Inr y0 \<Rightarrow>
                   (case map_at (mapped_x_y this) x1 of
                      Inl e \<Rightarrow> Inl e
                    | Inr y1 \<Rightarrow> Inr (linear_interpolate x0 y0 x1 y1 x')))
         else linear_loop this x' (i + 1))
      else Inl UndefinedBehaviour)"
  by pat_completeness auto
termination
  by (relation "measure (\<lambda>(this, x', i). length (axis_x this) - i)") auto

declare linear_loop.simps [simp del]

definition LinearInterpolation2D_ctor :: "real \<Rightarrow> std_map \<Rightarrow> error + Interpolation2D" where
  "LinearInterpolation2D_ctor indeterminate mapped_x_y0 =
     Interpolation2D_ctor indeterminate mapped_x_y0"

definition linear_evaluate :: "Interpolation2D \<Rightarrow> real \<Rightarrow> error + real" where
  "linear_evaluate this x' =
     (if x' < x_min this \<or> x' > x_max this then Inl Interpolation2DOutOfRange
      else linear_loop this x' 1)"

section \<open>CubicSpline2D\<close>

text \<open>
  The private members \<open>x_, a_, b_, c_, d_\<close> of the class beside its base.
\<close>

record CubicSpline2D =
  base :: Interpolation2D
  spline_x :: "real list"
  spline_a :: "real list"
  spline_b :: "real list"
  spline_c :: "real list"
  spline_d :: "real list"

text \<open>
  The loops of \<open>get_parameters\<close>. The vectors \<open>h, alpha, l, mu, z, c_, b_, d_\<close> and \<open>x\<close>
  are read and written inside their sizes; \<open>a_\<close> is a copy of \<open>y\<close>, whose size does not
  follow the number of points, and its reads are checked.
\<close>

function alpha_loop ::
    "real list \<Rightarrow> real list \<Rightarrow> nat \<Rightarrow> nat \<Rightarrow> real list \<Rightarrow> error + real list" where
  "alpha_loop h a i n alpha =
     (if i < n then
        (case vec_at a (i + 1) of
           Inl e \<Rightarrow> Inl e
         | Inr a2 \<Rightarrow>
             (case vec_at a i of
                Inl e \<Rightarrow> Inl e
              | Inr a1 \<Rightarrow>
                  (case vec_at a (i - 1) of
                     Inl e \<Rightarrow> Inl e
                   | Inr a0 \<Rightarrow>
                       alpha_loop h a (i + 1) n
                         (alpha[i := (3 / h ! i) * (a2 - a1) - (3 / h ! (i - 1)) * (a1 - a0)]))))
      else Inr alpha)"
  by pat_completeness auto
termination
  by (relation "measure (\<lambda>(h, a, i, n, alpha). n - i)") auto

declare alpha_loop.simps [simp del]

function forward_loop ::
    "real list \<Rightarrow> real list \<Rightarrow> real list \<Rightarrow> nat \<Rightarrow> nat
       \<Rightarrow> real list \<times> real list \<times> real list \<Rightarrow> real list \<times> real list \<times> real list" where
  "forward_loop x h alpha i n (l, mu, z) =
     (if i < n then
        (let li = 2 * (x ! (i + 1) - x ! (i - 1)) - h ! (i - 1) * mu ! (i - 1);
             l' = l[i := li];
             mu' = mu[i := h ! i / li];
             z' = z[i := (alpha ! i - h ! (i - 1) * z ! (i - 1)) / li]
         in forward_loop x h alpha (i + 1) n (l', mu', z'))
      else (l, mu, z))"
  by pat_completeness auto
termination
  by (relation "measure (\<lambda>(x, h, alpha, i, n, lmz). n - i)") auto

declare forward_loop.simps [simp del]

text \<open>The loop \<open>for (int j = n - 1; j >= 0; --j)\<close>; the counter is \<open>j + 1\<close>.\<close>

fun backward_loop ::
    "real list \<Rightarrow> real list \<Rightarrow> real list \<Rightarrow> real list \<Rightarrow> nat
       \<Rightarrow> real list \<times> real list \<times> real list \<Rightarrow> error + real list \<times> real list \<times> real list" where
  "backward_loop h a mu z 0 (c, b, d) = Inr (c, b, d)"
| "backward_loop h a mu z (Suc j) (c, b, d) =
     (let c' = c[j := z ! j - mu ! j * c ! (j + 1)]
      in case vec_at a (j + 1) of
           Inl e \<Rightarrow> Inl e
         | Inr a1 \<Rightarrow>
             (case vec_at a j of
                Inl e \<Rightarrow> Inl e
              | Inr a0 \<Rightarrow>
                  (let b' = b[j := (a1 - a0) / h ! j - h ! j * (c' ! (j + 1) + 2 * c' ! j) / 3];
                       d' = d[j := (c' ! (j + 1) - c' ! j) / (3 * h ! j)]
                   in backward_loop h a mu z j (c', b', d'))))"

definition get_parameters :: "Interpolation2D \<Rightarrow> error + CubicSpline2D" where
  "get_parameters this =
     (let x = axis_x this;
          y = axis_y this;
          n = length x - 1;
          a = axis_y this;
          h = map (\<lambda>i. x ! (i + 1) - x ! i) [0..<n]
      in case alpha_loop h a 1 n (replicate n 0) of
           Inl e \<Rightarrow> Inl e
         | Inr alpha \<Rightarrow>
             (let l0 = (replicate (n + 1) 0)[0 := 1];
                  mu0 = (replicate n 0)[0 := 0];
                  z0 = (replicate (n + 1) 0)[0 := 0];
                  (l, mu, z) = forward_loop x h alpha 1 n (l0, mu0, z0);
                  l = l[n := 1];
                  z = z[n := 0];
                  c0 = (replicate (n + 1) 0)[n := 0]
              in case backward_loop h a mu z n (c0, replicate n 0, replicate n 0) of
                   Inl e \<Rightarrow> Inl e
                 | Inr (c, b, d) \<Rightarrow>
                     Inr \<lparr>base = this, spline_x = x, spline_a = a, spline_b = b,
                          spline_c = c, spline_d = d\<rparr>))"

definition CubicSpline2D_ctor :: "real \<Rightarrow> std_map \<Rightarrow> error + CubicSpline2D" where
  "CubicSpline2D_ctor indeterminate mapped_x_y0 =
     (case Interpolation2D_ctor indeterminate mapped_x_y0 of
        Inl e \<Rightarrow> Inl e
      | Inr this \<Rightarrow> get_parameters this)"

text \<open>
  The search loop of \<open>evaluate\<close>: the index \<open>j - 1\<close> for the first \<open>j\<close> with
  \<open>x_ < x[j]\<close>, and the initial \<open>i = 0\<close> when there is none.
\<close>

function segment_loop :: "real list \<Rightarrow> real \<Rightarrow> nat \<Rightarrow> nat" where
  "segment_loop x x' j =
     (if j < length x then (if x' < x ! j then j - 1 else segment_loop x x' (j + 1)) else 0)"
  by pat_completeness auto
termination
  by (relation "measure (\<lambda>(x, x', j). length x - j)") auto

declare segment_loop.simps [simp del]

definition cubic_evaluate :: "CubicSpline2D \<Rightarrow> real \<Rightarrow> error + real" where
  "cubic_evaluate this x' =
     (if x' < x_min (base this) \<or> x' > x_max (base this) then Inl Interpolation2DOutOfRange
      else if x' = x_max (base this) then map_at (mapped_x_y (base this)) (x_max (base this))
      else
        (let i = segment_loop (axis_x (base this)) x' 1;
             dx = x' - axis_x (base this) ! i
         in case vec_at (spline_a this) i of
              Inl e \<Rightarrow> Inl e
            | Inr ai \<Rightarrow>
                Inr (ai + spline_b this ! i * dx + spline_c this ! i * dx * dx
                       + spline_d this ! i * dx * dx * dx)))"

section \<open>Rounding and truncation\<close>

lemma c_round_of_int: "c_round (of_int k) = k"
  by (simp add: c_round_def)




section \<open>Rounding to double\<close>

lemma pow2_add: "power_int (2::real) (a + b) = power_int 2 a * power_int 2 b"
  by (rule power_int_add) simp

lemma pow2_neg: "0 \<le> b \<Longrightarrow> power_int (2::real) (- b) = 1 / 2 ^ nat b"
proof -
  assume "0 \<le> b"
  then have "power_int (2::real) b = 2 ^ nat b" by (simp add: power_int_def)
  then show ?thesis by (simp only: power_int_minus inverse_eq_divide)
qed

lemma exponent_bounds:
  assumes "v \<noteq> 0"
  shows "power_int 2 (exponent v) \<le> \<bar>v\<bar>" and "\<bar>v\<bar> < power_int 2 (exponent v + 1)"
proof -
  have "power_int 2 (exponent v) \<le> \<bar>v\<bar> \<and> \<bar>v\<bar> < power_int 2 (exponent v + 1)"
  proof (cases "1 \<le> \<bar>v\<bar>")
    case True
    let ?n = "\<lfloor>\<bar>v\<bar>\<rfloor>"
    from True have n: "0 < ?n" by simp
    have e: "exponent v = bitlen ?n - 1" using True by (simp add: exponent_def)
    from n have b: "1 \<le> bitlen ?n" by (simp add: bitlen_alt_def)
    from bitlen_bounds [OF n]
    have lo: "2 ^ nat (bitlen ?n - 1) \<le> ?n" and hi: "?n < 2 ^ nat (bitlen ?n)" by simp_all
    have "real_of_int (2 ^ nat (bitlen ?n - 1)) \<le> real_of_int ?n"
      using lo by (simp only: of_int_le_iff)
    also have "\<dots> \<le> \<bar>v\<bar>" by simp
    finally have 1: "power_int 2 (exponent v) \<le> \<bar>v\<bar>"
      using b by (simp add: e power_int_def)
    from hi have "?n + 1 \<le> 2 ^ nat (bitlen ?n)" by simp
    then have "real_of_int (?n + 1) \<le> real_of_int (2 ^ nat (bitlen ?n))"
      by (simp only: of_int_le_iff)
    moreover have "\<bar>v\<bar> < real_of_int (?n + 1)" by simp
    ultimately have "\<bar>v\<bar> < real_of_int (2 ^ nat (bitlen ?n))" by linarith
    then have "\<bar>v\<bar> < 2 ^ nat (bitlen ?n)" by simp
    then have 2: "\<bar>v\<bar> < power_int 2 (exponent v + 1)"
      using b by (simp add: e power_int_def)
    from 1 2 show ?thesis ..
  next
    case False
    let ?y = "1 / \<bar>v\<bar>"
    let ?m = "\<lceil>?y\<rceil>"
    from False assms have v: "0 < \<bar>v\<bar>" "\<bar>v\<bar> < 1" by simp_all
    then have y: "1 < ?y" by simp
    then have m: "0 < ?m - 1" by simp
    have e: "exponent v = - bitlen (?m - 1)" using False by (simp add: exponent_def)
    from m have b: "1 \<le> bitlen (?m - 1)" by (simp add: bitlen_alt_def)
    from bitlen_bounds [OF m]
    have lo: "2 ^ nat (bitlen (?m - 1) - 1) \<le> ?m - 1" and hi: "?m - 1 < 2 ^ nat (bitlen (?m - 1))"
      by simp_all
    from hi have "?m \<le> 2 ^ nat (bitlen (?m - 1))" by simp
    then have "real_of_int ?m \<le> real_of_int (2 ^ nat (bitlen (?m - 1)))"
      by (simp only: of_int_le_iff)
    moreover have "?y \<le> real_of_int ?m" by (rule le_of_int_ceiling)
    ultimately have "?y \<le> real_of_int (2 ^ nat (bitlen (?m - 1)))" by linarith
    then have yle: "?y \<le> 2 ^ nat (bitlen (?m - 1))" by simp
    have "1 / 2 ^ nat (bitlen (?m - 1)) \<le> \<bar>v\<bar>"
    proof -
      have "1 \<le> \<bar>v\<bar> * 2 ^ nat (bitlen (?m - 1))"
        using yle v(1) by (simp add: field_simps)
      then show ?thesis by (simp add: field_simps)
    qed
    moreover have "power_int (2::real) (exponent v) = 1 / 2 ^ nat (bitlen (?m - 1))"
      unfolding e using b by (intro pow2_neg) simp
    ultimately have 1: "power_int 2 (exponent v) \<le> \<bar>v\<bar>" by simp
    have "real_of_int (2 ^ nat (bitlen (?m - 1) - 1)) \<le> real_of_int (?m - 1)"
      using lo by (simp only: of_int_le_iff)
    moreover have "real_of_int (?m - 1) < ?y"
      using ceiling_correct [of ?y] by simp
    ultimately have "real_of_int (2 ^ nat (bitlen (?m - 1) - 1)) < ?y" by linarith
    then have ygt: "2 ^ nat (bitlen (?m - 1) - 1) < ?y" by simp
    have lt: "\<bar>v\<bar> < 1 / 2 ^ nat (bitlen (?m - 1) - 1)"
    proof -
      have "\<bar>v\<bar> * 2 ^ nat (bitlen (?m - 1) - 1) < 1"
        using ygt v(1) by (simp add: field_simps)
      then show ?thesis by (simp add: field_simps)
    qed
    have "exponent v + 1 = - (bitlen (?m - 1) - 1)" by (simp add: e)
    then have "power_int 2 (exponent v + 1) = (1::real) / 2 ^ nat (bitlen (?m - 1) - 1)"
      using b by (simp only: pow2_neg)
    with lt have 2: "\<bar>v\<bar> < power_int 2 (exponent v + 1)" by simp
    from 1 2 show ?thesis ..
  qed
  then show "power_int 2 (exponent v) \<le> \<bar>v\<bar>" and "\<bar>v\<bar> < power_int 2 (exponent v + 1)"
    by simp_all
qed

lemma round_half_even_err: "\<bar>of_int (round_half_even q) - q\<bar> \<le> 1 / 2"
proof -
  have "of_int \<lfloor>q\<rfloor> \<le> q" "q < of_int \<lfloor>q\<rfloor> + 1" by linarith+
  then show ?thesis
    unfolding round_half_even_def Let_def by (auto split: if_splits) 
qed

lemma round_half_even_of_int: "round_half_even (of_int n) = n"
  by (simp add: round_half_even_def)

lemma to_double_0: "to_double 0 = 0"
  by (simp add: to_double_def)



text \<open>
  A number with a significand of at most 53 bits is a double: rounding leaves it as it is.
\<close>

lemma to_double_significand:
  assumes "\<bar>m\<bar> \<le> 2 ^ 53"
  shows "to_double (of_int m * power_int 2 j) = of_int m * power_int 2 j"
proof (cases "m = 0")
  case True
  then show ?thesis by (simp add: to_double_0)
next
  case False
  let ?v = "real_of_int m * power_int 2 j"
  let ?e = "exponent ?v"
  have v: "?v \<noteq> 0" using False by simp
  have absv: "\<bar>?v\<bar> = real_of_int \<bar>m\<bar> * power_int 2 j" by (simp add: abs_mult)
  have q: "?v / power_int 2 (?e - 52) = real_of_int m * power_int 2 (j - ?e + 52)"
  proof -
    have "power_int (2::real) (j - ?e + 52) * power_int 2 (?e - 52) = power_int 2 j"
      using pow2_add [of "j - ?e + 52" "?e - 52"] by simp
    then have "real_of_int m * power_int 2 (j - ?e + 52) * power_int 2 (?e - 52) = ?v"
      by (simp only: mult.assoc)
    moreover have "power_int (2::real) (?e - 52) \<noteq> 0" by simp
    ultimately show ?thesis by (metis nonzero_mult_div_cancel_right)
  qed
  have "\<exists>z. real_of_int m * power_int 2 (j - ?e + 52) = real_of_int z"
  proof (cases "0 \<le> j - ?e + 52")
    case True
    then have "real_of_int m * power_int 2 (j - ?e + 52)
        = real_of_int (m * 2 ^ nat (j - ?e + 52))"
      by (simp add: power_int_def)
    then show ?thesis by blast
  next
    case neg: False
    then have e1: "j + 53 \<le> ?e" by simp
    have "power_int (2::real) (j + 53) \<le> power_int 2 ?e"
      using e1 by (intro power_int_increasing) simp_all
    also have "\<dots> \<le> \<bar>?v\<bar>" by (rule exponent_bounds(1) [OF v])
    finally have "power_int (2::real) 53 * power_int 2 j \<le> real_of_int \<bar>m\<bar> * power_int 2 j"
      unfolding absv pow2_add by (simp add: mult.commute)
    then have "power_int (2::real) 53 \<le> real_of_int \<bar>m\<bar>"
      by (simp add: mult_le_cancel_right)
    then have "real_of_int (2 ^ 53) \<le> real_of_int \<bar>m\<bar>" by simp
    then have "2 ^ 53 \<le> \<bar>m\<bar>" by (simp only: of_int_le_iff)
    with assms have m53: "\<bar>m\<bar> = 2 ^ 53" by simp
    then have "\<bar>?v\<bar> = power_int 2 (j + 53)"
      unfolding absv pow2_add by simp
    with exponent_bounds(1) [OF v] have le: "power_int (2::real) ?e \<le> power_int 2 (j + 53)"
      by simp
    have "?e \<le> j + 53"
    proof (rule ccontr)
      assume "\<not> ?e \<le> j + 53"
      then have "power_int (2::real) (j + 53) < power_int 2 ?e"
        by (intro power_int_strict_increasing) simp_all
      with le show False by simp
    qed
    with e1 have "j - ?e + 52 = - 1" by simp
    then have half: "power_int (2::real) (j - ?e + 52) = 1 / 2"
      by (simp only: power_int_minus1_right) simp
    from m53 have "m = 2 ^ 53 \<or> m = - (2 ^ 53)" by (simp add: abs_if split: if_splits)
    then show ?thesis
    proof
      assume "m = 2 ^ 53"
      then have "real_of_int m * (1 / 2) = real_of_int (2 ^ 52)" by simp
      then show ?thesis unfolding half by blast
    next
      assume "m = - (2 ^ 53)"
      then have "real_of_int m * (1 / 2) = real_of_int (- (2 ^ 52))" by simp
      then show ?thesis unfolding half by blast
    qed
  qed
  then obtain z where z: "?v / power_int 2 (?e - 52) = real_of_int z" unfolding q by blast
  have "to_double ?v = real_of_int (round_half_even (?v / power_int 2 (?e - 52)))
      * power_int 2 (?e - 52)"
    using v by (simp add: to_double_def Let_def del: of_int_mult)
  also have "\<dots> = (?v / power_int 2 (?e - 52)) * power_int 2 (?e - 52)"
    unfolding z round_half_even_of_int ..
  also have "\<dots> = ?v" by simp
  finally show ?thesis .
qed

lemma to_double_of_int:
  assumes "\<bar>n\<bar> \<le> 2 ^ 53"
  shows "to_double (of_int n) = of_int n"
  using to_double_significand [OF assms, of 0] by simp

lemma double_of_int_small: "\<bar>n\<bar> \<le> 2 ^ 53 \<Longrightarrow> double_of_int n = of_int n"
  by (simp add: double_of_int_def to_double_of_int)

text \<open>Every result of a rounding has a significand of at most 53 bits.\<close>

lemma to_double_is_double:
  "\<exists>m j. \<bar>m\<bar> \<le> 2 ^ 53 \<and> to_double v = of_int m * power_int 2 j"
proof (cases "v = 0")
  case True
  then have "\<bar>0::int\<bar> \<le> 2 ^ 53 \<and> to_double v = of_int 0 * power_int 2 0"
    by (simp add: to_double_0)
  then show ?thesis by blast
next
  case False
  let ?u = "power_int 2 (exponent v - 52) :: real"
  let ?q = "v / ?u"
  let ?m = "round_half_even ?q"
  have u: "0 < ?u" by simp
  have "\<bar>v\<bar> < power_int 2 (exponent v + 1)" by (rule exponent_bounds(2) [OF False])
  also have "power_int (2::real) (exponent v + 1) = 2 ^ 53 * ?u"
  proof -
    have "power_int (2::real) (exponent v + 1) = power_int 2 53 * power_int 2 (exponent v - 52)"
      using pow2_add [of 53 "exponent v - 52"] by (simp add: add.commute)
    then show ?thesis by simp
  qed
  finally have "\<bar>v\<bar> / ?u < 2 ^ 53" using u by (simp add: field_simps)
  then have "\<bar>?q\<bar> < 2 ^ 53" using u by (simp add: abs_divide)
  with round_half_even_err [of ?q] have "\<bar>real_of_int ?m\<bar> < 2 ^ 53 + 1" by linarith
  then have "real_of_int \<bar>?m\<bar> < real_of_int (2 ^ 53 + 1)" by simp
  then have "\<bar>?m\<bar> < 2 ^ 53 + 1" by (simp only: of_int_less_iff)
  then have "\<bar>?m\<bar> \<le> 2 ^ 53" by simp
  moreover have "to_double v = of_int ?m * power_int 2 (exponent v - 52)"
    using False by (simp add: to_double_def Let_def)
  ultimately show ?thesis by blast
qed

lemma to_double_idem: "to_double (to_double v) = to_double v"
proof -
  from to_double_is_double [of v] obtain m j
    where "\<bar>m\<bar> \<le> 2 ^ 53" "to_double v = of_int m * power_int 2 j" by blast
  then show ?thesis using to_double_significand [of m j] by simp
qed










section \<open>Error bounds for a conversion there and back\<close>



section \<open>TimeDelta aggregation\<close>

lemma double_of_int_0: "double_of_int 0 = 0"
  by (simp add: double_of_int_def to_double_0)

text \<open>
  What \<open>get_total_seconds\<close> computes while the quotients fit 53 bits: the finer units are
  truncated towards zero.
\<close>

lemma get_total_seconds_closed:
  assumes "\<bar>td_ms t\<bar> \<le> 2 ^ 53" "\<bar>td_mcs t\<bar> \<le> 2 ^ 53" "\<bar>td_ns t\<bar> \<le> 2 ^ 53"
  shows "get_total_seconds t = td_s t + td_d t * 86400 + td_h t * 3600 + td_m t * 60
     + tdiv (td_mcs t) 1000000 + tdiv (td_ms t) 1000 + tdiv (td_ns t) 1000000000"
proof -
  have small: "\<bar>tdiv a b\<bar> \<le> 2 ^ 53" if "\<bar>a\<bar> \<le> 2 ^ 53" "0 < b" for a b
  proof -
    have nn: "0 \<le> \<bar>a\<bar> div b"
      using that(2) by (simp add: pos_imp_zdiv_nonneg_iff)
    have "\<bar>tdiv a b\<bar> \<le> \<bar>a\<bar> div b"
      using that(2) nn by (cases "a = 0") (simp_all add: tdiv_def abs_mult abs_sgn_eq)
    also have "\<dots> \<le> \<bar>a\<bar> div 1" using that(2) by (intro zdiv_mono2) simp_all
    also have "\<dots> = \<bar>a\<bar>" by simp
    finally show ?thesis using that(1) by simp
  qed
  have "c_round (double_of_int (tdiv a b)) = tdiv a b" if "\<bar>a\<bar> \<le> 2 ^ 53" "0 < b" for a b
    using small [OF that] by (simp add: double_of_int_small c_round_of_int)
  then show ?thesis using assms by (simp add: get_total_seconds_def)
qed

text \<open>
  C2. The claim: \<open>get_total_seconds\<close> adds each finer unit rounded to the nearest second.
  On a delta of 600 milliseconds the function returns 0, where 600/1000 rounded to the nearest
  integer is 1: the division inside \<open>round\<close> is an integer division.
\<close>

theorem get_total_seconds_truncates:
  "get_total_seconds (TimeDelta_ctor 0 0 0 0 600 0 0) = 0 \<and>
   total_seconds_spec (TimeDelta_ctor 0 0 0 0 600 0 0) = 1"
  by (simp add: get_total_seconds_def total_seconds_spec_def TimeDelta_ctor_def tdiv_def
      double_of_int_0) (simp add: c_round_def)

section \<open>Precision conversion\<close>

lemma type_value_double: "double_of_int (type_value p) = of_int (type_value p)"
  by (cases p) (simp_all add: double_of_int_small)

lemma type_value_pos: "0 < type_value p"
  by (cases p) simp_all


lemma convert_timestamp_tmsp:
  "tmsp (convert_timestamp p t)
     = c_round (to_double
         (to_double (of_int (type_value p) / of_int (type_value (tmsp_type t)))
            * double_of_int (tmsp t)))"
  by (simp add: convert_timestamp_def Let_def set_timestamp_def set_timestamp_type_def
      type_value_double)

lemma convert_timestamp_eq:
  "convert_timestamp p t = \<lparr>tmsp = tmsp (convert_timestamp p t), tmsp_type = p\<rparr>"
  by (simp add: convert_timestamp_def Let_def set_timestamp_def set_timestamp_type_def)


lemma type_value_ratio:
  assumes "type_value p = k * type_value q" "0 < k"
  shows "k = 1 \<or> (1000 \<le> k \<and> even k)" and "k \<le> 2 ^ 53"
  using assms by (cases p; cases q; simp; presburger)+

lemma factor_up:
  assumes "type_value p = k * type_value q" "0 < k"
  shows "to_double (of_int (type_value p) / of_int (type_value q)) = of_int k"
proof -
  have "real_of_int (type_value p) / real_of_int (type_value q) = real_of_int k"
    using type_value_pos [of q] by (simp add: assms(1))
  moreover have "\<bar>k\<bar> \<le> 2 ^ 53" using type_value_ratio(2) [OF assms] assms(2) by simp
  ultimately show ?thesis by (simp add: to_double_of_int)
qed


text \<open>A conversion to the precision the timestamp already has changes nothing, once the
  ticks are a double.\<close>

lemma convert_same:
  assumes "tmsp_type t = p" "double_of_int (tmsp t) = of_int (tmsp t)"
  shows "convert_timestamp p t = t"
proof -
  have "to_double (of_int (type_value p) / of_int (type_value (tmsp_type t))) = of_int 1"
    by (rule factor_up) (simp_all add: assms(1))
  then have "tmsp (convert_timestamp p t) = c_round (to_double (double_of_int (tmsp t)))"
    by (simp add: convert_timestamp_tmsp)
  also have "\<dots> = tmsp t"
    using assms(2) by (simp add: double_of_int_def c_round_of_int)
  finally show ?thesis using assms(1) by (subst convert_timestamp_eq) simp
qed










text \<open>
  Beyond 53 bits the ticks themselves are rounded, whatever the target precision: present-day
  nanosecond timestamps change under a conversion to nanoseconds, and come back from seconds
  further away than half a second.
\<close>

lemma convert_timestamp_beyond_53_bits:
  "tmsp (convert_timestamp NANOSECONDS \<lparr>tmsp = 1704067200123456789, tmsp_type = NANOSECONDS\<rparr>)
     = 1704067200123456768"
  "tmsp (convert_timestamp NANOSECONDS (convert_timestamp SECONDS
           \<lparr>tmsp = 1704067200499999999, tmsp_type = NANOSECONDS\<rparr>))
     = 1704067201000000000"
  by code_simp+




section \<open>The sign of a timestamp\<close>

text \<open>
  C10. The constructor rejects exactly the negative timestamps. After construction nothing
  checks the sign again: \<open>apply_time_delta\<close> and \<open>set_timestamp\<close> have no failure to
  report, a delta of minus one day takes the timestamp 0 to a negative value, and
  \<open>set_timestamp\<close> stores any value it is given.
\<close>

theorem nonnegative_only_at_construction:
  "(DateTime_ctor ts ty = Inl NegativeEpochTimestampError) = (ts < 0) \<and>
   (\<exists>dt delta. DateTime_ctor 0 SECONDS = Inr dt \<and> 0 \<le> tmsp dt
       \<and> tmsp (apply_time_delta delta dt) < 0) \<and>
   tmsp (set_timestamp v d) = v \<and>
   tmsp (set_timestamp (- 5) d) < 0"
proof -
  have "DateTime_ctor 0 SECONDS = Inr \<lparr>tmsp = 0, tmsp_type = SECONDS\<rparr>"
    by (simp add: DateTime_ctor_def)
  moreover have "tmsp (apply_time_delta (TimeDelta_ctor (- 1) 0 0 0 0 0 0)
      \<lparr>tmsp = 0, tmsp_type = SECONDS\<rparr>) < 0"
    by (simp add: apply_time_delta_def get_total_seconds_closed TimeDelta_ctor_def tdiv_def)
  ultimately have "\<exists>dt delta. DateTime_ctor 0 SECONDS = Inr dt \<and> 0 \<le> tmsp dt
       \<and> tmsp (apply_time_delta delta dt) < 0"
    by (intro exI [of _ "\<lparr>tmsp = 0, tmsp_type = SECONDS\<rparr>"]
        exI [of _ "TimeDelta_ctor (- 1) 0 0 0 0 0 0"]) simp
  then show ?thesis
    by (simp add: DateTime_ctor_def set_timestamp_def)
qed

section \<open>get_timedelta\<close>


lemma get_timedelta_delta:
  "fst (get_timedelta sp ep u hp)
     = (let delta = tmsp (convert_timestamp u (hp ep)) - tmsp (convert_timestamp u (hp sp))
        in case u of
             SECONDS \<Rightarrow> TimeDelta_ctor 0 0 0 delta 0 0 0
           | MILLISECONDS \<Rightarrow> TimeDelta_ctor 0 0 0 0 delta 0 0
           | MICROSECONDS \<Rightarrow> TimeDelta_ctor 0 0 0 0 0 delta 0
           | NANOSECONDS \<Rightarrow> TimeDelta_ctor 0 0 0 0 0 0 delta)"
proof (cases "sp = ep")
  case True
  show ?thesis
    using True
    by (cases u)
      (simp_all add: get_timedelta_def convert_timestamp_at_def get_timestamp_def Let_def)
next
  case False
  then show ?thesis
    by (cases u)
      (simp_all add: get_timedelta_def convert_timestamp_at_def get_timestamp_def Let_def)
qed




section \<open>Year fractions\<close>











section \<open>Tenors\<close>

lemma days_in_month: "get_number_days_in_month dcc = 30"
  by (cases dcc) (simp_all add: get_number_days_in_month_def tdiv_def c_round_def)

text \<open>
  C8. \<open>get_tenor_year_fraction\<close> is the integer quotient of the tenor's days by the days of
  a year, both positive: 0 for every tenor shorter than a year, and the number of years for
  the others.
\<close>

theorem tenor_year_fraction_integer_division:
  "0 < get_tenor_in_days tenor dcc \<and>
   get_tenor_year_fraction tenor dcc
     = of_int (get_tenor_in_days tenor dcc div get_number_days_in_year dcc) \<and>
   (get_tenor_in_days tenor dcc < get_number_days_in_year dcc
      \<longrightarrow> get_tenor_year_fraction tenor dcc = 0) \<and>
   get_tenor_year_fraction tenor dcc
     = (case tenor of T_1Y \<Rightarrow> 1 | T_5Y \<Rightarrow> 5 | T_10Y \<Rightarrow> 10 | T_20Y \<Rightarrow> 20 | T_30Y \<Rightarrow> 30
        | _ \<Rightarrow> 0)"
  by (cases tenor; cases dcc)
    (simp_all add: get_tenor_year_fraction_def get_tenor_in_days_def days_in_month tdiv_def)

theorem tenor_year_fraction_integer_division_witness:
  "get_tenor_in_days T_6M ACT365 < get_number_days_in_year ACT365 \<and>
   get_tenor_in_days T_6M ACT365 = 180 \<and>
   get_tenor_year_fraction T_6M ACT365 = 0"
  using tenor_year_fraction_integer_division [of T_6M ACT365]
  by (simp add: get_tenor_in_days_def days_in_month)

section \<open>Date sequences\<close>

lemma sequence_loop_closed:
  "sequence_loop i n dt nxt out
     = out @ map (\<lambda>k. Fresh ((apply_time_delta dt ^^ k) nxt)) [1..<Suc (nat (n - i))]"
proof (induction i n dt nxt out rule: sequence_loop.induct)
  case (1 i n dt nxt out)
  show ?case
  proof (cases "i < n")
    case False
    then show ?thesis by (subst sequence_loop.simps) simp
  next
    case True
    let ?f = "apply_time_delta dt"
    let ?m = "nat (n - i)"
    from True have m: "Suc (nat (n - (i + 1))) = ?m" by linarith
    from True have mpos: "1 < Suc ?m" by linarith
    have "[1..<Suc ?m] = 1 # [Suc 1..<Suc ?m]"
      using mpos by (rule upt_conv_Cons)
    also have "[Suc 1..<Suc ?m] = map Suc [1..<?m]"
      by (simp only: map_Suc_upt)
    finally have range: "[1..<Suc ?m] = 1 # map Suc [1..<?m]" .
    have "sequence_loop i n dt nxt out
        = sequence_loop (i + 1) n dt (?f nxt) (out @ [Fresh (?f nxt)])"
      using True by (subst sequence_loop.simps) (simp add: Let_def)
    also have "\<dots> = (out @ [Fresh (?f nxt)])
        @ map (\<lambda>k. Fresh ((?f ^^ k) (?f nxt))) [1..<?m]"
      using "1.IH" [OF True refl] m by simp
    also have "\<dots> = out @ map (\<lambda>k. Fresh ((?f ^^ k) nxt)) [1..<Suc ?m]"
      unfolding range by (simp add: funpow_swap1 comp_def)
    finally show ?thesis .
  qed
qed

text \<open>
  C9. With \<open>n\<close> the number of periods that \<open>sequence_length_from_frequency_tenor\<close>
  returns, \<open>generate_datetime_sequence\<close> returns the start pointer if asked, then the
  \<open>n - 1\<close> new objects reached from the start by applying the delta of the frequency once,
  twice, up to \<open>n - 1\<close> times, then the end pointer if asked; for \<open>n \<le> 1\<close> there is no new
  object. From 2024-01-01 to 2024-04-01 (in seconds) every month of ACT/365, with both
  flags, that is four points.
\<close>

theorem generate_datetime_sequence_spec:
  "fst (generate_datetime_sequence sp freq dcc include_start include_end ep hp)
     = (if include_start then [Shared sp] else [])
       @ map (\<lambda>k. Fresh ((apply_time_delta (get_tenor_in_timedelta freq dcc) ^^ k) (hp sp)))
           [1..<nat (fst (sequence_length_from_frequency_tenor sp ep freq dcc hp))]
       @ (if include_end then [Shared ep] else []) \<and>
   length (fst (generate_datetime_sequence sp freq dcc include_start include_end ep hp))
     = (if include_start then 1 else 0)
       + nat (fst (sequence_length_from_frequency_tenor sp ep freq dcc hp) - 1)
       + (if include_end then 1 else 0) \<and>
   (fst (sequence_length_from_frequency_tenor sp ep freq dcc hp) \<le> 1 \<longrightarrow>
      fst (generate_datetime_sequence sp freq dcc include_start include_end ep hp)
        = (if include_start then [Shared sp] else []) @ (if include_end then [Shared ep] else [])) \<and>
   fst (generate_datetime_sequence 0 T_1M ACT365 True True 1
          (heap_of [\<lparr>tmsp = 1704067200, tmsp_type = SECONDS\<rparr>,
                    \<lparr>tmsp = 1711929600, tmsp_type = SECONDS\<rparr>]))
     = [Shared 0, Fresh \<lparr>tmsp = 1706659200, tmsp_type = SECONDS\<rparr>,
        Fresh \<lparr>tmsp = 1709251200, tmsp_type = SECONDS\<rparr>, Shared 1]"
proof -
  let ?n = "fst (sequence_length_from_frequency_tenor sp ep freq dcc hp)"
  let ?dt = "get_tenor_in_timedelta freq dcc"
  have shape: "fst (generate_datetime_sequence a f c fs fe b h)
      = (if fs then [Shared a] else [])
        @ map (\<lambda>k. Fresh ((apply_time_delta (get_tenor_in_timedelta f c) ^^ k) (h a)))
            [1..<nat (fst (sequence_length_from_frequency_tenor a b f c h))]
        @ (if fe then [Shared b] else [])" for a f c fs fe b h
  proof -
    have "[1..<Suc (nat (m - 1))] = [1..<nat m]" for m :: int
    proof (cases "m \<le> 0")
      case True
      then have "nat (m - 1) = 0" "nat m = 0" by simp_all
      then show ?thesis by simp
    next
      case False
      then have "Suc (nat (m - 1)) = nat m" by linarith
      then show ?thesis by (simp only:)
    qed
    then show ?thesis
      by (simp add: generate_datetime_sequence_def Let_def split_beta sequence_loop_closed
         )
  qed
  have len: "length (fst (generate_datetime_sequence sp freq dcc include_start include_end ep hp))
     = (if include_start then 1 else 0) + nat (?n - 1) + (if include_end then 1 else 0)"
    unfolding shape by simp
  have small: "?n \<le> 1 \<longrightarrow>
      fst (generate_datetime_sequence sp freq dcc include_start include_end ep hp)
        = (if include_start then [Shared sp] else []) @ (if include_end then [Shared ep] else [])"
    unfolding shape by simp
  let ?hp = "heap_of [\<lparr>tmsp = 1704067200, tmsp_type = SECONDS\<rparr>,
                      \<lparr>tmsp = 1711929600, tmsp_type = SECONDS\<rparr>]"
  have n3: "fst (sequence_length_from_frequency_tenor 0 1 T_1M ACT365 ?hp) = 3"
  proof -
    have "c_round (to_double (double_of_int 7862400 / double_of_int 2592000)) = 3"
      by code_simp
    then show ?thesis
      by (simp add: sequence_length_from_frequency_tenor_def split_beta Let_def
          get_timedelta_delta get_tenor_in_timedelta_def get_tenor_in_days_def days_in_month
          get_total_seconds_closed TimeDelta_ctor_def tdiv_def heap_of_def convert_same
          double_of_int_small)
  qed
  have scenario: "fst (generate_datetime_sequence 0 T_1M ACT365 True True 1 ?hp)
     = [Shared 0, Fresh \<lparr>tmsp = 1706659200, tmsp_type = SECONDS\<rparr>,
        Fresh \<lparr>tmsp = 1709251200, tmsp_type = SECONDS\<rparr>, Shared 1]"
    unfolding shape n3
    by (simp add: upt_conv_Cons numeral_2_eq_2 heap_of_def apply_time_delta_def
        get_tenor_in_timedelta_def
        get_tenor_in_days_def days_in_month get_total_seconds_closed TimeDelta_ctor_def tdiv_def)
  from shape len small scenario show ?thesis by (intro conjI)
qed

theorem generate_datetime_sequence_spec_witness:
  "fst (sequence_length_from_frequency_tenor 0 1 T_1M ACT365
          (heap_of [\<lparr>tmsp = 1704067200, tmsp_type = SECONDS\<rparr>,
                    \<lparr>tmsp = 1706659200, tmsp_type = SECONDS\<rparr>])) \<le> 1 \<and>
   fst (generate_datetime_sequence 0 T_1M ACT365 True True 1
          (heap_of [\<lparr>tmsp = 1704067200, tmsp_type = SECONDS\<rparr>,
                    \<lparr>tmsp = 1706659200, tmsp_type = SECONDS\<rparr>]))
     = [Shared 0, Shared 1]"
proof -
  let ?hp = "heap_of [\<lparr>tmsp = 1704067200, tmsp_type = SECONDS\<rparr>,
                      \<lparr>tmsp = 1706659200, tmsp_type = SECONDS\<rparr>]"
  have n1: "fst (sequence_length_from_frequency_tenor 0 1 T_1M ACT365 ?hp) = 1"
  proof -
    have "c_round (to_double (double_of_int 2592000 / double_of_int 2592000)) = 1"
      by code_simp
    then show ?thesis
      by (simp add: sequence_length_from_frequency_tenor_def split_beta Let_def
          get_timedelta_delta get_tenor_in_timedelta_def get_tenor_in_days_def days_in_month
          get_total_seconds_closed TimeDelta_ctor_def tdiv_def heap_of_def convert_same
          double_of_int_small)
  qed
  then have h: "fst (sequence_length_from_frequency_tenor 0 1 T_1M ACT365 ?hp) \<le> 1" by simp
  from generate_datetime_sequence_spec [of 0 T_1M ACT365 True True 1 ?hp] h
  have "fst (generate_datetime_sequence 0 T_1M ACT365 True True 1 ?hp) = [Shared 0, Shared 1]"
    by simp
  with h show ?thesis by simp
qed

section \<open>The interpolation axis\<close>

lemma get_x_values_result:
  "get_x_values mp
     = (if length mp < 2 then Inl Interpolation2DMinimalVectorSize else Inr (map fst mp))"
  by (simp add: get_x_values_def)

lemma map_insert_keys: "fst ` set (map_insert e mp) = insert (fst e) (fst ` set mp)"
  by (induction e mp rule: map_insert.induct) auto

lemma map_insert_sorted:
  "sorted_wrt (<) (map fst mp) \<Longrightarrow> sorted_wrt (<) (map fst (map_insert e mp))"
proof (induction e mp rule: map_insert.induct)
  case (1 k v)
  then show ?case by simp
next
  case (2 k v k' v' mp)
  show ?case
  proof (cases "k < k'")
    case True
    with "2.prems" show ?thesis by auto
  next
    case False
    show ?thesis
    proof (cases "k = k'")
      case True
      with "2.prems" show ?thesis by simp
    next
      case ne: False
      with False have gt: "k' < k" by simp
      from "2.prems" have tl: "sorted_wrt (<) (map fst mp)" by simp
      have ih: "sorted_wrt (<) (map fst (map_insert (k, v) mp))"
        using "2.IH" [OF False ne tl] .
      from "2.prems" have "\<forall>a \<in> fst ` set mp. k' < a" by simp
      with gt have "\<forall>a \<in> fst ` set (map_insert (k, v) mp). k' < a"
        by (simp add: map_insert_keys)
      then have "\<forall>e \<in> set (map_insert (k, v) mp). k' < fst e" by blast
      with ih False ne show ?thesis by simp
    qed
  qed
qed

lemma std_map_of_sorted: "sorted_wrt (<) (map fst (std_map_of entries))"
proof -
  have "sorted_wrt (<) (map fst mp)
      \<Longrightarrow> sorted_wrt (<) (map fst (foldl (\<lambda>mp e. map_insert e mp) mp entries))" for mp
    by (induction entries arbitrary: mp) (simp_all add: map_insert_sorted)
  from this [of "[]"] show ?thesis by (simp add: std_map_of_def)
qed

text \<open>
  C5, as stated. The claim: the entries \<open>{2:1, 1:2}\<close> are refused with
  \<open>Interpolation2DWrongXaxis\<close>. The map built from them iterates as \<open>{1:2, 2:1}\<close>, and
  the constructor accepts it (here with 0 in the storage of \<open>x_min\<close>); \<open>get_x_values\<close>
  would accept the keys even in the order 2, 1.
\<close>

theorem Interpolation2D_ctor_counterexample:
  "std_map_of [(2, 1), (1, 2)] = [(1, 2), (2, 1)] \<and>
   Interpolation2D_ctor 0 (std_map_of [(2, 1), (1, 2)])
     = Inr \<lparr>mapped_x_y = [(1, 2), (2, 1)], axis_x = [1, 2], axis_y = [0],
            x_min = 0, x_max = 2\<rparr> \<and>
   get_x_values [(2, 1), (1, 2)] = Inr [2, 1]"
  by (simp add: std_map_of_def Interpolation2D_ctor_def get_x_values_def double_to_size_t_def)

text \<open>
  C5, amended. Construction fails with \<open>Interpolation2DMinimalVectorSize\<close> exactly when
  the mapping has fewer than 2 points and never fails with \<open>Interpolation2DWrongXaxis\<close>:
  a map iterates its keys in strictly increasing order whatever the order of the entries it
  was built from, and \<open>get_x_values\<close> returns the keys of every mapping of 2 points or more.
\<close>

theorem Interpolation2D_ctor_errors:
  "(Interpolation2D_ctor v mp = Inl Interpolation2DMinimalVectorSize) = (length mp < 2) \<and>
   Interpolation2D_ctor v mp \<noteq> Inl Interpolation2DWrongXaxis \<and>
   get_x_values mp
     = (if length mp < 2 then Inl Interpolation2DMinimalVectorSize else Inr (map fst mp)) \<and>
   sorted_wrt (<) (map fst (std_map_of entries))"
proof -
  have "min_element ks \<noteq> Inl Interpolation2DMinimalVectorSize"
    "min_element ks \<noteq> Inl Interpolation2DWrongXaxis" for ks
    by (cases ks; simp)+
  moreover have "max_element ks \<noteq> Inl Interpolation2DMinimalVectorSize"
    "max_element ks \<noteq> Inl Interpolation2DWrongXaxis" for ks
    by (cases ks; simp)+
  moreover have "double_to_size_t w \<noteq> Inl Interpolation2DMinimalVectorSize"
    "double_to_size_t w \<noteq> Inl Interpolation2DWrongXaxis" for w
    by (simp_all add: double_to_size_t_def Let_def)
  ultimately have
    "(Interpolation2D_ctor v mp = Inl Interpolation2DMinimalVectorSize) = (length mp < 2)"
    "Interpolation2D_ctor v mp \<noteq> Inl Interpolation2DWrongXaxis"
    by (auto simp: Interpolation2D_ctor_def get_x_values_result split: sum.splits)
  then show ?thesis
    using get_x_values_result [of mp] std_map_of_sorted [of entries] by (intro conjI)
qed

section \<open>The linear interpolator on a well-formed axis\<close>

text \<open>
  What \<open>evaluate\<close> of \<open>LinearInterpolation2D\<close> does on any mapping with two or more
  strictly increasing keys, as a function of the value \<open>x_min\<close> holds.
\<close>

lemma map_at_nth:
  "distinct (map fst mp) \<Longrightarrow> j < length mp \<Longrightarrow> map_at mp (fst (mp ! j)) = Inr (snd (mp ! j))"
proof (induction mp arbitrary: j)
  case Nil
  then show ?case by simp
next
  case (Cons e mp)
  obtain k w where e: "e = (k, w)" by (cases e)
  show ?case
  proof (cases j)
    case 0
    then show ?thesis by (simp add: e)
  next
    case (Suc j')
    with Cons.prems have j': "j' < length mp" and d: "distinct (map fst mp)" by simp_all
    from Cons.prems(1) j' have "fst (mp ! j') \<noteq> k"
      by (auto simp: e dest: nth_mem)
    with Cons.IH [OF d j'] show ?thesis by (simp add: e Suc)
  qed
qed

lemma max_element_sorted:
  "sorted_wrt (<) (w # ws) \<Longrightarrow> max_element (w # ws) = Inr (last (w # ws))"
proof -
  have "sorted_wrt (<) (w # ws)
      \<Longrightarrow> foldl (\<lambda>best u. if best < u then u else best) w ws = last (w # ws)"
    by (induction ws arbitrary: w) auto
  then show "sorted_wrt (<) (w # ws) \<Longrightarrow> max_element (w # ws) = Inr (last (w # ws))"
    by simp
qed

lemma linear_loop_skip:
  assumes "i < length (axis_x this)"
    "\<not> (x' \<ge> axis_x this ! (i - 1) \<and> x' \<le> axis_x this ! i)"
  shows "linear_loop this x' i = linear_loop this x' (i + 1)"
  using assms by (subst linear_loop.simps) auto

lemma linear_loop_hit:
  assumes "i < length (axis_x this)" "x' \<ge> axis_x this ! (i - 1)" "x' \<le> axis_x this ! i"
    "map_at (mapped_x_y this) (axis_x this ! (i - 1)) = Inr y0"
    "map_at (mapped_x_y this) (axis_x this ! i) = Inr y1"
  shows "linear_loop this x' i
     = Inr (linear_interpolate (axis_x this ! (i - 1)) y0 (axis_x this ! i) y1 x')"
  using assms by (subst linear_loop.simps) (simp add: Let_def)

lemma linear_loop_below:
  assumes "sorted_wrt (<) (axis_x this)" "x' < axis_x this ! 0" "1 \<le> i"
  shows "linear_loop this x' i = Inl UndefinedBehaviour"
  using assms
proof (induction this x' i rule: linear_loop.induct)
  case (1 this x' i)
  show ?case
  proof (cases "i < length (axis_x this)")
    case False
    then show ?thesis by (subst linear_loop.simps) simp
  next
    case True
    have "axis_x this ! 0 \<le> axis_x this ! (i - 1)"
    proof (cases "i - 1 = 0")
      case True
      then show ?thesis by simp
    next
      case False
      then have "0 < i - 1" by simp
      moreover have "i - 1 < length (axis_x this)" using True by simp
      ultimately have "axis_x this ! 0 < axis_x this ! (i - 1)"
        using "1.prems"(1) by (simp add: sorted_wrt_iff_nth_less)
      then show ?thesis by simp
    qed
    with "1.prems"(2) have no: "\<not> (x' \<ge> axis_x this ! (i - 1) \<and> x' \<le> axis_x this ! i)"
      by simp
    have "linear_loop this x' i = linear_loop this x' (i + 1)"
      using True no by (rule linear_loop_skip)
    also have "\<dots> = Inl UndefinedBehaviour"
      using "1.IH" [OF True no] "1.prems" by simp
    finally show ?thesis .
  qed
qed

lemma linear_loop_finds:
  assumes "axis_x this = map fst (mapped_x_y this)" "sorted_wrt (<) (axis_x this)"
    "1 \<le> i" "i < length (axis_x this)" "axis_x this ! (i - 1) \<le> x'"
    "x' \<le> last (axis_x this)"
  shows "\<exists>j. i \<le> j \<and> j < length (axis_x this)
           \<and> axis_x this ! (j - 1) \<le> x' \<and> x' \<le> axis_x this ! j
           \<and> (\<forall>k. i \<le> k \<and> k < j \<longrightarrow> axis_x this ! k < x')
           \<and> linear_loop this x' i
               = Inr (linear_interpolate (axis_x this ! (j - 1)) (snd (mapped_x_y this ! (j - 1)))
                        (axis_x this ! j) (snd (mapped_x_y this ! j)) x')"
  using assms
proof (induction this x' i rule: linear_loop.induct)
  case (1 this x' i)
  let ?xs = "axis_x this"
  let ?mp = "mapped_x_y this"
  have len: "length ?mp = length ?xs" using "1.prems"(1) by simp
  have "distinct ?xs" using "1.prems"(2) strict_sorted_iff by blast
  then have dist: "distinct (map fst ?mp)" using "1.prems"(1) by simp
  have at: "map_at ?mp (?xs ! j) = Inr (snd (?mp ! j))" if "j < length ?xs" for j
  proof -
    from that len have j: "j < length ?mp" by simp
    then have "map_at ?mp (fst (?mp ! j)) = Inr (snd (?mp ! j))"
      by (rule map_at_nth [OF dist])
    moreover have "?xs ! j = fst (?mp ! j)"
      using j by (simp only: "1.prems"(1) nth_map)
    ultimately show ?thesis by simp
  qed
  show ?case
  proof (cases "x' \<le> ?xs ! i")
    case True
    have "linear_loop this x' i
        = Inr (linear_interpolate (?xs ! (i - 1)) (snd (?mp ! (i - 1)))
                 (?xs ! i) (snd (?mp ! i)) x')"
    proof (rule linear_loop_hit)
      show "i < length ?xs" by (rule "1.prems"(4))
      show "?xs ! (i - 1) \<le> x'" by (rule "1.prems"(5))
      show "x' \<le> ?xs ! i" by (rule True)
      show "map_at ?mp (?xs ! (i - 1)) = Inr (snd (?mp ! (i - 1)))"
        using "1.prems"(4) by (intro at) simp
      show "map_at ?mp (?xs ! i) = Inr (snd (?mp ! i))"
        using "1.prems"(4) by (intro at)
    qed
    with True "1.prems"(3,4,5) show ?thesis
      by (intro exI [of _ i]) simp
  next
    case False
    then have gt: "?xs ! i < x'" by simp
    have "i \<noteq> length ?xs - 1"
    proof
      assume "i = length ?xs - 1"
      moreover from "1.prems"(4) have "?xs \<noteq> []" by auto
      then have "last ?xs = ?xs ! (length ?xs - 1)" by (rule last_conv_nth)
      ultimately have "?xs ! i = last ?xs" by simp
      with gt "1.prems"(6) show False by simp
    qed
    with "1.prems"(4) have next_in: "i + 1 < length ?xs" by simp
    have no: "\<not> (x' \<ge> ?xs ! (i - 1) \<and> x' \<le> ?xs ! i)" using False by simp
    have step: "linear_loop this x' i = linear_loop this x' (i + 1)"
      using "1.prems"(4) no by (rule linear_loop_skip)
    from "1.IH" [OF "1.prems"(4) no "1.prems"(1,2)] next_in gt "1.prems"(6)
    obtain j where j: "i + 1 \<le> j" "j < length ?xs" "?xs ! (j - 1) \<le> x'" "x' \<le> ?xs ! j"
      "\<forall>k. i + 1 \<le> k \<and> k < j \<longrightarrow> ?xs ! k < x'"
      "linear_loop this x' (i + 1)
        = Inr (linear_interpolate (?xs ! (j - 1)) (snd (?mp ! (j - 1)))
                 (?xs ! j) (snd (?mp ! j)) x')"
      by auto
    have "\<forall>k. i \<le> k \<and> k < j \<longrightarrow> ?xs ! k < x'"
    proof (intro allI impI)
      fix k assume k: "i \<le> k \<and> k < j"
      show "?xs ! k < x'"
      proof (cases "k = i")
        case True
        with gt show ?thesis by simp
      next
        case False
        with k have "i + 1 \<le> k \<and> k < j" by simp
        with j(5) show ?thesis by blast
      qed
    qed
    with j step show ?thesis
      by (intro exI [of _ j]) simp
  qed
qed

lemma linear_evaluate_well_formed:
  assumes "axis_x this = map fst (mapped_x_y this)" "sorted_wrt (<) (axis_x this)"
    "2 \<le> length (axis_x this)" "x_max this = last (axis_x this)"
  shows "(x' < x_min this \<or> last (axis_x this) < x'
            \<longrightarrow> linear_evaluate this x' = Inl Interpolation2DOutOfRange) \<and>
         (x_min this \<le> x' \<and> x' < axis_x this ! 0
            \<longrightarrow> linear_evaluate this x' = Inl UndefinedBehaviour) \<and>
         (x_min this \<le> x' \<and> axis_x this ! 0 \<le> x' \<and> x' \<le> last (axis_x this)
            \<longrightarrow> (\<exists>j. 1 \<le> j \<and> j < length (axis_x this)
                   \<and> axis_x this ! (j - 1) \<le> x' \<and> x' \<le> axis_x this ! j
                   \<and> (\<forall>k. 1 \<le> k \<and> k < j \<longrightarrow> axis_x this ! k < x')
                   \<and> linear_evaluate this x'
                       = Inr (linear_interpolate
                                (axis_x this ! (j - 1)) (snd (mapped_x_y this ! (j - 1)))
                                (axis_x this ! j) (snd (mapped_x_y this ! j)) x')))"
proof (intro conjI impI)
  assume "x' < x_min this \<or> last (axis_x this) < x'"
  then show "linear_evaluate this x' = Inl Interpolation2DOutOfRange"
    using assms(4) by (auto simp: linear_evaluate_def)
next
  assume a: "x_min this \<le> x' \<and> x' < axis_x this ! 0"
  have ne: "axis_x this \<noteq> []" using assms(3) by auto
  have "axis_x this ! 0 \<le> last (axis_x this)"
  proof -
    have "axis_x this ! 0 < axis_x this ! (length (axis_x this) - 1)"
      using assms(2,3) by (simp add: sorted_wrt_iff_nth_less)
    then show ?thesis using ne by (simp add: last_conv_nth)
  qed
  with a assms(4) have "\<not> (x' < x_min this \<or> x' > x_max this)" by simp
  then have "linear_evaluate this x' = linear_loop this x' 1"
    by (simp add: linear_evaluate_def)
  also have "\<dots> = Inl UndefinedBehaviour"
    using assms(2) a by (intro linear_loop_below) simp_all
  finally show "linear_evaluate this x' = Inl UndefinedBehaviour" .
next
  assume a: "x_min this \<le> x' \<and> axis_x this ! 0 \<le> x' \<and> x' \<le> last (axis_x this)"
  with assms(4) have "\<not> (x' < x_min this \<or> x' > x_max this)" by simp
  then have ev: "linear_evaluate this x' = linear_loop this x' 1"
    by (simp add: linear_evaluate_def)
  have "\<exists>j. 1 \<le> j \<and> j < length (axis_x this)
           \<and> axis_x this ! (j - 1) \<le> x' \<and> x' \<le> axis_x this ! j
           \<and> (\<forall>k. 1 \<le> k \<and> k < j \<longrightarrow> axis_x this ! k < x')
           \<and> linear_loop this x' 1
               = Inr (linear_interpolate (axis_x this ! (j - 1)) (snd (mapped_x_y this ! (j - 1)))
                        (axis_x this ! j) (snd (mapped_x_y this ! j)) x')"
    using assms(1,2) a assms(3) by (intro linear_loop_finds) simp_all
  then show "\<exists>j. 1 \<le> j \<and> j < length (axis_x this)
                   \<and> axis_x this ! (j - 1) \<le> x' \<and> x' \<le> axis_x this ! j
                   \<and> (\<forall>k. 1 \<le> k \<and> k < j \<longrightarrow> axis_x this ! k < x')
                   \<and> linear_evaluate this x'
                       = Inr (linear_interpolate
                                (axis_x this ! (j - 1)) (snd (mapped_x_y this ! (j - 1)))
                                (axis_x this ! j) (snd (mapped_x_y this ! j)) x')"
    unfolding ev .
qed

text \<open>The object that the constructor makes from such a mapping.\<close>

lemma min_element_sorted:
  "sorted_wrt (<) (w # ws) \<Longrightarrow> min_element (w # ws) = Inr w"
proof -
  have "\<forall>u \<in> set ws. w < u \<Longrightarrow> foldl (\<lambda>best u. if u < best then u else best) w ws = w"
    by (induction ws) auto
  then show "sorted_wrt (<) (w # ws) \<Longrightarrow> min_element (w # ws) = Inr w" by simp
qed

lemma Interpolation2D_ctor_well_formed:
  assumes "sorted_wrt (<) (map fst mp)" "2 \<le> length mp"
    "double_to_size_t (fst (hd mp)) = Inr sz"
  shows "Interpolation2D_ctor v mp
     = Inr \<lparr>mapped_x_y = mp, axis_x = map fst mp, axis_y = replicate sz 0,
            x_min = v, x_max = last (map fst mp)\<rparr>"
proof -
  from assms(2) obtain e mp' where mp: "mp = e # mp'" by (cases mp) auto
  have "min_element (map fst mp) = Inr (fst e)"
    using assms(1) unfolding mp list.map by (rule min_element_sorted)
  moreover have "max_element (map fst mp) = Inr (last (map fst mp))"
    using assms(1) unfolding mp list.map by (rule max_element_sorted)
  moreover have "get_x_values mp = Inr (map fst mp)"
    using assms(2) by (simp add: get_x_values_result)
  ultimately show ?thesis
    using assms(3) by (simp add: Interpolation2D_ctor_def mp)
qed

text \<open>
  C6. The claim: over \<open>{0:0, 10:10}\<close>, \<open>evaluate(5)\<close> is 5 and every point outside the
  axis is refused with \<open>Interpolation2DOutOfRange\<close>. The range test of \<open>evaluate\<close> reads
  \<open>x_min\<close>, which the constructor never sets. With \<open>v\<close> the value found there,
  \<open>evaluate(5)\<close> is refused when \<open>v\<close> is above 5, and \<open>evaluate(-1)\<close> passes the range
  test when \<open>v\<close> is -1 or below, finds no segment and leaves the function without a
  \<open>return\<close>.
\<close>

theorem linear_evaluate_uninitialised_x_min:
  "LinearInterpolation2D_ctor v (std_map_of [(0, 0), (10, 10)])
     = Inr \<lparr>mapped_x_y = [(0, 0), (10, 10)], axis_x = [0, 10], axis_y = [],
            x_min = v, x_max = 10\<rparr> \<and>
   linear_evaluate \<lparr>mapped_x_y = [(0, 0), (10, 10)], axis_x = [0, 10], axis_y = [],
            x_min = v, x_max = 10\<rparr> 5
     = (if 5 < v then Inl Interpolation2DOutOfRange else Inr 5) \<and>
   linear_evaluate \<lparr>mapped_x_y = [(0, 0), (10, 10)], axis_x = [0, 10], axis_y = [],
            x_min = v, x_max = 10\<rparr> 10
     = (if 10 < v then Inl Interpolation2DOutOfRange else Inr 10) \<and>
   linear_evaluate \<lparr>mapped_x_y = [(0, 0), (10, 10)], axis_x = [0, 10], axis_y = [],
            x_min = v, x_max = 10\<rparr> 11
     = Inl Interpolation2DOutOfRange \<and>
   linear_evaluate \<lparr>mapped_x_y = [(0, 0), (10, 10)], axis_x = [0, 10], axis_y = [],
            x_min = v, x_max = 10\<rparr> (- 1)
     = (if - 1 < v then Inl Interpolation2DOutOfRange else Inl UndefinedBehaviour)"
  by (simp add: LinearInterpolation2D_ctor_def Interpolation2D_ctor_def std_map_of_def
      get_x_values_def double_to_size_t_def linear_evaluate_def linear_loop.simps
      linear_interpolate_def)

section \<open>The cubic spline on a well-formed axis\<close>

text \<open>
  Whatever values the mapping stores, a spline that the constructor completes has only zeros
  in \<open>a_\<close>, and \<open>evaluate\<close> at a key other than the last one can return nothing but 0.
\<close>

lemma get_parameters_base:
  "get_parameters this = Inr s \<Longrightarrow> spline_a s = axis_y this \<and> base s = this"
  by (auto simp: get_parameters_def Let_def split: sum.splits prod.splits)

lemma segment_loop_knot:
  assumes "sorted_wrt (<) xs" "i + 1 < length xs" "1 \<le> j" "j \<le> i + 1"
  shows "segment_loop xs (xs ! i) j = i"
  using assms
proof (induction xs "xs ! i" j rule: segment_loop.induct)
  case (1 xs j)
  from "1.prems" have jl: "j < length xs" by simp
  show ?case
  proof (cases "j = i + 1")
    case True
    then have "xs ! i < xs ! j"
      using "1.prems"(1,2) by (simp add: sorted_wrt_iff_nth_less)
    with jl True show ?thesis by (subst segment_loop.simps) simp
  next
    case False
    with "1.prems"(4) have le: "j \<le> i" by simp
    have "\<not> xs ! i < xs ! j"
    proof (cases "j = i")
      case True
      then show ?thesis by simp
    next
      case False
      with le have "j < i" by simp
      moreover from "1.prems"(2) have "i < length xs" by simp
      ultimately have "xs ! j < xs ! i"
        using "1.prems"(1) by (simp add: sorted_wrt_iff_nth_less)
      then show ?thesis by simp
    qed
    then have no: "\<not> xs ! i < xs ! j" .
    have "segment_loop xs (xs ! i) j = segment_loop xs (xs ! i) (j + 1)"
      using jl no by (subst segment_loop.simps) simp
    also have "\<dots> = i"
      using "1.hyps" [OF jl no] "1.prems"(1,2) le by simp
    finally show ?thesis .
  qed
qed

lemma cubic_evaluate_knot_zero:
  assumes "CubicSpline2D_ctor v mp = Inr s" "sorted_wrt (<) (map fst mp)"
    "i + 1 < length mp" "cubic_evaluate s (fst (mp ! i)) = Inr r"
  shows "r = 0"
proof -
  let ?xs = "map fst mp"
  from assms(1) obtain this where this: "Interpolation2D_ctor v mp = Inr this"
    and params: "get_parameters this = Inr s"
    by (auto simp: CubicSpline2D_ctor_def split: sum.splits)
  from this obtain sz hi where parts: "max_element ?xs = Inr hi"
      "axis_x this = ?xs" "axis_y this = replicate sz 0" "x_max this = hi"
    by (auto simp: Interpolation2D_ctor_def get_x_values_result split: sum.splits if_splits)
  from assms(3) obtain e mp' where "mp = e # mp'" by (cases mp) auto
  with assms(2) have "max_element ?xs = Inr (last ?xs)"
    using max_element_sorted [of "fst e" "map fst mp'"] by simp
  with parts have fields: "axis_x this = ?xs" "axis_y this = replicate sz 0"
      "x_max this = last ?xs"
    by simp_all
  from get_parameters_base [OF params] fields
  have s: "spline_a s = replicate sz 0" "axis_x (base s) = ?xs" "x_max (base s) = last ?xs"
    by simp_all
  have i: "i + 1 < length ?xs" using assms(3) by simp
  have key: "fst (mp ! i) = ?xs ! i" using assms(3) by simp
  have "?xs ! i < ?xs ! (length ?xs - 1)"
    using assms(2) i by (simp add: sorted_wrt_iff_nth_less del: length_map nth_map)
  moreover have "last ?xs = ?xs ! (length ?xs - 1)"
    using i by (intro last_conv_nth) auto
  ultimately have not_last: "?xs ! i \<noteq> last ?xs" by simp
  have seg: "segment_loop ?xs (?xs ! i) 1 = i"
    using assms(2) i by (intro segment_loop_knot) simp_all
  from assms(4) have "vec_at (replicate sz 0) i = Inr r"
    unfolding key cubic_evaluate_def s Let_def seg using not_last
    by (simp split: if_splits sum.splits)
  then show ?thesis by (simp add: vec_at_def split: if_splits)
qed

text \<open>
  C1. The claim: the spline built over \<open>{0:0, 1:1, 2:0, 3:1}\<close> returns at each key the
  value stored for it. The coefficients \<open>a_\<close> are a copy of the member \<open>y\<close>, which the
  constructor of the base fills with as many zeros as the smallest key says, not with the
  values of the mapping. Over \<open>{0:0, 1:1, 2:0, 3:1}\<close> the vector is empty and
  \<open>get_parameters\<close> reads \<open>a_[2]\<close>, \<open>a_[1]\<close> and \<open>a_[0]\<close> outside it. Over
  \<open>{4:1, 5:2, 6:1, 7:2}\<close> the vector holds four zeros, every coefficient is 0, and
  \<open>evaluate(4)\<close> is 0 or refused, whatever \<open>x_min\<close> happens to hold, where the stored
  value is 1.
\<close>

theorem cubic_spline_ignores_values:
  "CubicSpline2D_ctor v (std_map_of [(0, 0), (1, 1), (2, 0), (3, 1)]) = Inl UndefinedBehaviour \<and>
   get_y_values (std_map_of [(4, 1), (5, 2), (6, 1), (7, 2)]) = [1, 2, 1, 2] \<and>
   CubicSpline2D_ctor v (std_map_of [(4, 1), (5, 2), (6, 1), (7, 2)])
     = Inr \<lparr>base = \<lparr>mapped_x_y = [(4, 1), (5, 2), (6, 1), (7, 2)], axis_x = [4, 5, 6, 7],
                     axis_y = [0, 0, 0, 0], x_min = v, x_max = 7\<rparr>,
            spline_x = [4, 5, 6, 7], spline_a = [0, 0, 0, 0], spline_b = [0, 0, 0],
            spline_c = [0, 0, 0, 0], spline_d = [0, 0, 0]\<rparr> \<and>
   cubic_evaluate
       \<lparr>base = \<lparr>mapped_x_y = [(4, 1), (5, 2), (6, 1), (7, 2)], axis_x = [4, 5, 6, 7],
                 axis_y = [0, 0, 0, 0], x_min = v, x_max = 7\<rparr>,
        spline_x = [4, 5, 6, 7], spline_a = [0, 0, 0, 0], spline_b = [0, 0, 0],
        spline_c = [0, 0, 0, 0], spline_d = [0, 0, 0]\<rparr> 4
     = (if 4 < v then Inl Interpolation2DOutOfRange else Inr 0)"
proof -
  have base0: "Interpolation2D_ctor v (std_map_of [(0, 0), (1, 1), (2, 0), (3, 1)])
      = Inr \<lparr>mapped_x_y = [(0, 0), (1, 1), (2, 0), (3, 1)], axis_x = [0, 1, 2, 3],
             axis_y = [], x_min = v, x_max = 3\<rparr>"
    by (simp add: Interpolation2D_ctor_def std_map_of_def get_x_values_def double_to_size_t_def)
  have params0: "get_parameters
        \<lparr>mapped_x_y = [(0, 0), (1, 1), (2, 0), (3, 1)], axis_x = [0, 1, 2, 3],
         axis_y = [], x_min = v, x_max = 3\<rparr>
      = Inl UndefinedBehaviour"
    by code_simp
  have 1: "CubicSpline2D_ctor v (std_map_of [(0, 0), (1, 1), (2, 0), (3, 1)])
      = Inl UndefinedBehaviour"
    by (simp add: CubicSpline2D_ctor_def base0 params0)
  have 2: "get_y_values (std_map_of [(4, 1), (5, 2), (6, 1), (7, 2)]) = [1, 2, 1, 2]"
    by (simp add: get_y_values_def std_map_of_def)
  have base4: "Interpolation2D_ctor v (std_map_of [(4, 1), (5, 2), (6, 1), (7, 2)])
      = Inr \<lparr>mapped_x_y = [(4, 1), (5, 2), (6, 1), (7, 2)], axis_x = [4, 5, 6, 7],
             axis_y = [0, 0, 0, 0], x_min = v, x_max = 7\<rparr>"
    by (simp add: Interpolation2D_ctor_def std_map_of_def get_x_values_def double_to_size_t_def)
      (simp add: eval_nat_numeral)
  have params4: "get_parameters
        \<lparr>mapped_x_y = [(4, 1), (5, 2), (6, 1), (7, 2)], axis_x = [4, 5, 6, 7],
         axis_y = [0, 0, 0, 0], x_min = v, x_max = 7\<rparr>
      = Inr \<lparr>base = \<lparr>mapped_x_y = [(4, 1), (5, 2), (6, 1), (7, 2)], axis_x = [4, 5, 6, 7],
                      axis_y = [0, 0, 0, 0], x_min = v, x_max = 7\<rparr>,
             spline_x = [4, 5, 6, 7], spline_a = [0, 0, 0, 0], spline_b = [0, 0, 0],
             spline_c = [0, 0, 0, 0], spline_d = [0, 0, 0]\<rparr>"
    by code_simp
  have 3: "CubicSpline2D_ctor v (std_map_of [(4, 1), (5, 2), (6, 1), (7, 2)])
     = Inr \<lparr>base = \<lparr>mapped_x_y = [(4, 1), (5, 2), (6, 1), (7, 2)], axis_x = [4, 5, 6, 7],
                     axis_y = [0, 0, 0, 0], x_min = v, x_max = 7\<rparr>,
            spline_x = [4, 5, 6, 7], spline_a = [0, 0, 0, 0], spline_b = [0, 0, 0],
            spline_c = [0, 0, 0, 0], spline_d = [0, 0, 0]\<rparr>"
    by (simp add: CubicSpline2D_ctor_def base4 params4)
  have 4: "cubic_evaluate
       \<lparr>base = \<lparr>mapped_x_y = [(4, 1), (5, 2), (6, 1), (7, 2)], axis_x = [4, 5, 6, 7],
                 axis_y = [0, 0, 0, 0], x_min = v, x_max = 7\<rparr>,
        spline_x = [4, 5, 6, 7], spline_a = [0, 0, 0, 0], spline_b = [0, 0, 0],
        spline_c = [0, 0, 0, 0], spline_d = [0, 0, 0]\<rparr> 4
     = (if 4 < v then Inl Interpolation2DOutOfRange else Inr 0)"
    by (simp add: cubic_evaluate_def segment_loop.simps vec_at_def)
  from 1 2 3 4 show ?thesis by (intro conjI)
qed

end
